theory Spec2Isabelle
  imports Main "HOL-Library.Sublist"
begin

section \<open>Exceptions and callables\<close>

text \<open>
  The exceptions \<^verbatim>\<open>hooks.py\<close> raises itself, and \<open>Raised x\<close> for an exception \<open>x\<close> that
  comes out of code the module only calls (the hook executor, a result callback).
\<close>

datatype error = ValueError | AssertionError | TypeError | AttributeError | Raised string

text \<open>
  What \<^verbatim>\<open>varnames\<close> reads of a callable. A routine is described by the result of
  \<^verbatim>\<open>_getargspec\<close> (\<open>None\<close> when it raises \<^verbatim>\<open>TypeError\<close>; otherwise \<^verbatim>\<open>spec.args\<close> and the
  number of \<^verbatim>\<open>spec.defaults\<close>, 0 for \<^verbatim>\<open>None\<close>), by \<^verbatim>\<open>inspect.ismethod\<close> and by whether its
  \<^verbatim>\<open>__qualname__\<close> contains a dot. A callable is a class (with its \<^verbatim>\<open>__init__\<close>, \<open>None\<close>
  when the attribute access raises \<^verbatim>\<open>AttributeError\<close>), a routine, or another object (with
  what \<^verbatim>\<open>getattr(func, '__call__', func)\<close> gives, \<open>None\<close> when that raises).
\<close>

record routine =
  argspec :: "(string list \<times> nat) option"
  ismethod :: bool
  dotted_qualname :: bool

datatype shape = PyClass "routine option" | PyRoutine routine | PyObject "routine option"

record 'f pyfunc =
  ident :: 'f
  cached_varnames :: "(string list \<times> string list) option"
  shape :: shape

text \<open>
  Lines 134-158 of \<^verbatim>\<open>varnames\<close>, on the routine finally inspected. \<^verbatim>\<open>args[:index]\<close> and
  \<^verbatim>\<open>args[index:]\<close> with \<^verbatim>\<open>index = -len(defaults)\<close> are \<open>take\<close> and \<open>drop\<close> at
  \<open>length args - n\<close>. The failing \<^verbatim>\<open>assert "self" not in args\<close> is \<open>Inl AssertionError\<close>.
\<close>

definition inspect_routine :: "routine \<Rightarrow> error + (string list \<times> string list) option" where
  "inspect_routine r =
     (case argspec r of
        None \<Rightarrow> Inr (Some ([], []))
      | Some (spec_args, ndefaults) \<Rightarrow>
          (let (args, defaults) =
                 (if 0 < ndefaults
                  then (take (length spec_args - ndefaults) spec_args,
                        drop (length spec_args - ndefaults) spec_args)
                  else (spec_args, []));
               args' =
                 (if args \<noteq> [] \<and> (ismethod r \<or> (dotted_qualname r \<and> hd args = ''self''))
                  then tl args else args)
           in if ''self'' \<in> set args' then Inl AssertionError
              else Inr (Some (args', defaults))))"

text \<open>
  \<^verbatim>\<open>varnames(func)\<close>. \<open>Inr None\<close> is the empty tuple of line 132, \<open>Inr (Some (args, defaults))\<close>
  a pair. The cache in \<^verbatim>\<open>func.__dict__\<close> is read; writing the computed pair back to it
  (line 155) is left out. \<open>cached_varnames\<close> is the cache as it is when the callable is
  inspected: a callable whose \<^verbatim>\<open>__dict__\<close> an earlier inspection has written to, its own or
  one of an object sharing that dictionary (a function after a bound method of it), is
  described with that pair in \<open>cached_varnames\<close>.
\<close>

definition varnames :: "'f pyfunc \<Rightarrow> error + (string list \<times> string list) option" where
  "varnames f =
     (case cached_varnames f of
        Some r \<Rightarrow> Inr (Some r)
      | None \<Rightarrow>
          (case shape f of
             PyClass None \<Rightarrow> Inr (Some ([], []))
           | PyClass (Some r) \<Rightarrow> inspect_routine r
           | PyRoutine r \<Rightarrow> inspect_routine r
           | PyObject None \<Rightarrow> Inr None
           | PyObject (Some r) \<Rightarrow> inspect_routine r))"

section \<open>Hook specification marker\<close>

text \<open>
  The options dictionary of a specification. A field is \<open>None\<close> when the key is absent.
  \<^verbatim>\<open>dict.update\<close> lets the keys of the second dictionary win.
\<close>

record 'w spec_opts =
  firstresult :: "bool option"
  historic :: "bool option"
  opt_warn_on_impl :: "'w option option"

definition empty_opts :: "'w spec_opts" where
  "empty_opts = \<lparr>firstresult = None, historic = None, opt_warn_on_impl = None\<rparr>"

definition update_opts :: "'w spec_opts \<Rightarrow> 'w spec_opts \<Rightarrow> 'w spec_opts" where
  "update_opts a b =
     \<lparr>firstresult = (case firstresult b of None \<Rightarrow> firstresult a | Some v \<Rightarrow> Some v),
      historic = (case historic b of None \<Rightarrow> historic a | Some v \<Rightarrow> Some v),
      opt_warn_on_impl = (case opt_warn_on_impl b of None \<Rightarrow> opt_warn_on_impl a | Some v \<Rightarrow> Some v)\<rparr>"

text \<open>
  \<^verbatim>\<open>HookspecMarker.__call__\<close>. The function being marked is represented by its attribute
  dictionary; \<^verbatim>\<open>setattr\<close> stores the options under \<^verbatim>\<open>project_name + "_spec"\<close>. Called with a
  function the marker marks it; called without, it returns the decorator.
\<close>

definition setattr_hookspec_opts ::
  "string \<Rightarrow> bool \<Rightarrow> bool \<Rightarrow> 'w option \<Rightarrow> (string \<rightharpoonup> 'w spec_opts) \<Rightarrow>
   error + (string \<rightharpoonup> 'w spec_opts)" where
  "setattr_hookspec_opts project_name firstresult' historic' warn_on_impl' func =
     (if historic' \<and> firstresult' then Inl ValueError
      else Inr (func(project_name @ ''_spec'' \<mapsto>
             \<lparr>firstresult = Some firstresult', historic = Some historic',
              opt_warn_on_impl = Some warn_on_impl'\<rparr>)))"

datatype 'w marked =
    Marked "string \<rightharpoonup> 'w spec_opts"
  | Decorator "(string \<rightharpoonup> 'w spec_opts) \<Rightarrow> error + (string \<rightharpoonup> 'w spec_opts)"

definition HookspecMarker_call ::
  "string \<Rightarrow> (string \<rightharpoonup> 'w spec_opts) option \<Rightarrow> bool \<Rightarrow> bool \<Rightarrow> 'w option \<Rightarrow>
   error + 'w marked" where
  "HookspecMarker_call project_name function firstresult' historic' warn_on_impl' =
     (case function of
        Some f \<Rightarrow>
          (case setattr_hookspec_opts project_name firstresult' historic' warn_on_impl' f of
             Inl e \<Rightarrow> Inl e
           | Inr f' \<Rightarrow> Inr (Marked f'))
      | None \<Rightarrow>
          Inr (Decorator (setattr_hookspec_opts project_name firstresult' historic' warn_on_impl')))"

section \<open>Hook implementations\<close>

text \<open>
  \<^verbatim>\<open>HookImpl\<close>. The options dictionary is copied into the attributes, so its keys are
  fields here; \<^verbatim>\<open>call_extra\<close> builds one without \<^verbatim>\<open>optionalhook\<close>, hence the option.
\<close>

record impl_opts =
  opt_hookwrapper :: bool
  opt_optionalhook :: "bool option"
  opt_tryfirst :: bool
  opt_trylast :: bool

record ('f, 'p) hookimpl =
  func :: "'f pyfunc"
  argnames :: "string list"
  kwargnames :: "string list"
  plugin :: "'p option"
  plugin_name :: string
  hookwrapper :: bool
  optionalhook :: "bool option"
  tryfirst :: bool
  trylast :: bool

text \<open>
  \<^verbatim>\<open>HookImpl.__init__\<close>: unpacking the empty tuple \<^verbatim>\<open>varnames\<close> may return raises
  \<^verbatim>\<open>ValueError\<close>.
\<close>

definition HookImpl ::
  "'p option \<Rightarrow> string \<Rightarrow> 'f pyfunc \<Rightarrow> impl_opts \<Rightarrow> error + ('f, 'p) hookimpl" where
  "HookImpl plugin' plugin_name' function hook_impl_opts =
     (case varnames function of
        Inl e \<Rightarrow> Inl e
      | Inr None \<Rightarrow> Inl ValueError
      | Inr (Some (a, k)) \<Rightarrow>
          Inr \<lparr>func = function, argnames = a, kwargnames = k, plugin = plugin',
               plugin_name = plugin_name',
               hookwrapper = opt_hookwrapper hook_impl_opts,
               optionalhook = opt_optionalhook hook_impl_opts,
               tryfirst = opt_tryfirst hook_impl_opts,
               trylast = opt_trylast hook_impl_opts\<rparr>)"

section \<open>The hook caller\<close>

datatype dispatcher = Multicall | LegacyMulticall

text \<open>
  The state of a \<^verbatim>\<open>_HookCaller\<close>. A specification module or class is its dictionary of
  functions. \<open>call_history = None\<close> is the absence of the attribute \<^verbatim>\<open>_call_history\<close>.
  Keyword arguments are association lists. The executor \<^verbatim>\<open>_hookexec\<close> is set once by the
  constructor and never changed: the operations take it as a parameter.
\<close>

record ('f, 'p, 'v, 'cb, 'w) hookcaller =
  name :: string
  wrappers :: "('f, 'p) hookimpl list"
  nonwrappers :: "('f, 'p) hookimpl list"
  specmodule_or_class :: "(string \<times> 'f pyfunc) list option"
  spec_argnames :: "string list option"
  spec_kwargnames :: "string list option"
  multicall :: dispatcher
  spec_opts :: "'w spec_opts"
  call_history :: "((string \<times> 'v) list \<times> 'cb option) list option"
  warn_on_impl :: "'w option"

text \<open>
  Calls that leave the module: \<open>Exec ms kw\<close> for \<^verbatim>\<open>self._hookexec(self, ms, kw)\<close> and
  \<open>Proc p x\<close> for a result callback \<^verbatim>\<open>proc(x)\<close>. The executor returns a list of results or
  \<^verbatim>\<open>None\<close>, or raises; a callback returns or raises. Both are parameters; they are taken
  not to modify the caller they are called for (the module assumes no re-entrant mutation).
  The \<^verbatim>\<open>warnings.warn\<close> calls are diagnostics and are not modelled.
\<close>

datatype ('f, 'p, 'v, 'cb) event =
    Exec "('f, 'p) hookimpl list" "(string \<times> 'v) list option"
  | Proc 'cb 'v

type_synonym ('f, 'p, 'v, 'cb, 'w) executor =
  "('f, 'p, 'v, 'cb, 'w) hookcaller \<Rightarrow> ('f, 'p) hookimpl list \<Rightarrow> (string \<times> 'v) list option \<Rightarrow>
   error + 'v list option"

definition has_spec :: "('f, 'p, 'v, 'cb, 'w) hookcaller \<Rightarrow> bool" where
  "has_spec c = (specmodule_or_class c \<noteq> None)"

definition is_historic :: "('f, 'p, 'v, 'cb, 'w) hookcaller \<Rightarrow> bool" where
  "is_historic c = (call_history c \<noteq> None)"

text \<open>
  \<^verbatim>\<open>set_specification\<close>. The result is the exception raised, if any, and the caller as the
  call leaves it: an exception after line 191 leaves the module bound.
  \<^verbatim>\<open>self.spec_opts.update(None)\<close> raises \<^verbatim>\<open>TypeError\<close>.
\<close>

definition set_specification ::
  "(string \<times> 'f pyfunc) list \<Rightarrow> 'w spec_opts option \<Rightarrow> ('f, 'p, 'v, 'cb, 'w) hookcaller \<Rightarrow>
   error option \<times> ('f, 'p, 'v, 'cb, 'w) hookcaller" where
  "set_specification specmodule spec_opts' c =
     (if has_spec c then (Some AssertionError, c)
      else
        (let c1 = c\<lparr>specmodule_or_class := Some specmodule\<rparr> in
         case map_of specmodule (name c) of
           None \<Rightarrow> (Some AttributeError, c1)
         | Some specfunc \<Rightarrow>
             (case varnames specfunc of
                Inl e \<Rightarrow> (Some e, c1)
              | Inr None \<Rightarrow> (Some ValueError, c1)
              | Inr (Some (a, k)) \<Rightarrow>
                  (let c2 = c1\<lparr>spec_kwargnames := Some k,
                               spec_argnames := Some (''__multicall__'' # a)\<rparr> in
                   case spec_opts' of
                     None \<Rightarrow> (Some TypeError, c2)
                   | Some so \<Rightarrow>
                       (let c3 = c2\<lparr>spec_opts := update_opts (spec_opts c2) so\<rparr>;
                            c4 = (if historic so = Some True
                                  then c3\<lparr>call_history := Some []\<rparr> else c3)
                        in (None, c4\<lparr>warn_on_impl :=
                                     (case opt_warn_on_impl so of None \<Rightarrow> None | Some w \<Rightarrow> w)\<rparr>))))))"

text \<open>
  \<^verbatim>\<open>_HookCaller.__init__\<close>: the attributes set by lines 174-182, then the binding of a
  specification given to the constructor. An exception in the constructor leaves no object.
\<close>

definition unbound_caller ::
  "string \<Rightarrow> 'w spec_opts option \<Rightarrow> ('f, 'p, 'v, 'cb, 'w) hookcaller" where
  "unbound_caller name' spec_opts' =
     \<lparr>name = name', wrappers = [], nonwrappers = [], specmodule_or_class = None,
      spec_argnames = None, spec_kwargnames = None, multicall = Multicall,
      spec_opts = (case spec_opts' of None \<Rightarrow> empty_opts | Some so \<Rightarrow> so),
      call_history = None, warn_on_impl = None\<rparr>"

definition HookCaller_init ::
  "string \<Rightarrow> (string \<times> 'f pyfunc) list option \<Rightarrow> 'w spec_opts option \<Rightarrow>
   error + ('f, 'p, 'v, 'cb, 'w) hookcaller" where
  "HookCaller_init name' specmodule spec_opts' =
     (case specmodule of
        None \<Rightarrow> Inr (unbound_caller name' spec_opts')
      | Some m \<Rightarrow>
          (case set_specification m spec_opts' (unbound_caller name' spec_opts') of
             (Some e, _) \<Rightarrow> Inl e
           | (None, c') \<Rightarrow> Inr c'))"

subsection \<open>Removing a plugin\<close>

text \<open>
  The inner \<^verbatim>\<open>remove\<close> of \<^verbatim>\<open>_remove_plugin\<close>: the list with the first method of the plugin
  deleted (the function returned \<^verbatim>\<open>True\<close>), or \<open>None\<close> when the loop ends without a match.
\<close>

fun remove :: "'p option \<Rightarrow> ('f, 'p) hookimpl list \<Rightarrow> ('f, 'p) hookimpl list option" where
  "remove p [] = None"
| "remove p (m # ms) =
     (if plugin m = p then Some ms
      else (case remove p ms of None \<Rightarrow> None | Some ms' \<Rightarrow> Some (m # ms')))"

definition remove_plugin ::
  "'p option \<Rightarrow> ('f, 'p, 'v, 'cb, 'w) hookcaller \<Rightarrow>
   error option \<times> ('f, 'p, 'v, 'cb, 'w) hookcaller" where
  "remove_plugin p c =
     (case remove p (wrappers c) of
        Some ws \<Rightarrow> (None, c\<lparr>wrappers := ws\<rparr>)
      | None \<Rightarrow>
          (case remove p (nonwrappers c) of
             Some ns \<Rightarrow> (None, c\<lparr>nonwrappers := ns\<rparr>)
           | None \<Rightarrow> (Some ValueError, c)))"

subsection \<open>Adding an implementation\<close>

text \<open>
  The loop of lines 228-230, with \<open>k\<close> standing for \<^verbatim>\<open>i + 1\<close>: it stops at \<open>k = 0\<close>
  (\<^verbatim>\<open>i = -1\<close>) or at the first method from the end that is not tryfirst.
\<close>

fun last_non_tryfirst :: "('f, 'p) hookimpl list \<Rightarrow> nat \<Rightarrow> nat" where
  "last_non_tryfirst methods 0 = 0"
| "last_non_tryfirst methods (Suc i) =
     (if tryfirst (methods ! i) then last_non_tryfirst methods i else Suc i)"

definition insert_at :: "nat \<Rightarrow> 'a \<Rightarrow> 'a list \<Rightarrow> 'a list" where
  "insert_at k x xs = take k xs @ x # drop k xs"

definition add_hookimpl ::
  "('f, 'p) hookimpl \<Rightarrow> ('f, 'p, 'v, 'cb, 'w) hookcaller \<Rightarrow> ('f, 'p, 'v, 'cb, 'w) hookcaller" where
  "add_hookimpl h c =
     (let methods = (if hookwrapper h then wrappers c else nonwrappers c);
          methods' =
            (if trylast h then insert_at 0 h methods
             else if tryfirst h then methods @ [h]
             else insert_at (last_non_tryfirst methods (length methods)) h methods);
          c' = (if hookwrapper h then c\<lparr>wrappers := methods'\<rparr> else c\<lparr>nonwrappers := methods'\<rparr>)
      in if ''__multicall__'' \<in> set (argnames h) then c'\<lparr>multicall := LegacyMulticall\<rparr> else c')"

subsection \<open>Calling\<close>

text \<open>
  \<^verbatim>\<open>__call__\<close>: the outcome of the call, the caller afterwards and the external calls made.
  The keyword arguments are those the body receives: a keyword named \<^verbatim>\<open>self\<close> never reaches
  it (Python raises \<^verbatim>\<open>TypeError\<close> while binding the arguments), so \<open>kwargs\<close> is taken
  without that key.
\<close>

definition hookcaller_call ::
  "('f, 'p, 'v, 'cb, 'w) executor \<Rightarrow> 'v list \<Rightarrow> (string \<times> 'v) list \<Rightarrow>
   ('f, 'p, 'v, 'cb, 'w) hookcaller \<Rightarrow>
   (error + 'v list option) \<times> ('f, 'p, 'v, 'cb, 'w) hookcaller \<times> ('f, 'p, 'v, 'cb) event list" where
  "hookcaller_call hookexec args kwargs c =
     (if args \<noteq> [] then (Inl TypeError, c, [])
      else if is_historic c then (Inl AssertionError, c, [])
      else (hookexec c (nonwrappers c @ wrappers c) (Some kwargs), c,
            [Exec (nonwrappers c @ wrappers c) (Some kwargs)]))"

text \<open>The loop \<^verbatim>\<open>for x in res or []: proc(x)\<close>; it ends at the first callback that raises.\<close>

fun call_procs ::
  "('cb \<Rightarrow> 'v \<Rightarrow> error option) \<Rightarrow> 'cb \<Rightarrow> 'v list \<Rightarrow>
   error option \<times> ('f, 'p, 'v, 'cb) event list" where
  "call_procs run_proc p [] = (None, [])"
| "call_procs run_proc p (x # xs) =
     (case run_proc p x of
        Some e \<Rightarrow> (Some e, [Proc p x])
      | None \<Rightarrow> (case call_procs run_proc p xs of (r, es) \<Rightarrow> (r, Proc p x # es)))"

text \<open>
  \<^verbatim>\<open>call_historic\<close>. Reading \<^verbatim>\<open>self._call_history\<close> on a caller that is not historic raises
  \<^verbatim>\<open>AttributeError\<close>. The history gets \<^verbatim>\<open>kwargs or {}\<close>, the executor the argument as given.
\<close>

definition call_historic ::
  "('f, 'p, 'v, 'cb, 'w) executor \<Rightarrow> ('cb \<Rightarrow> 'v \<Rightarrow> error option) \<Rightarrow>
   'cb option \<Rightarrow> (string \<times> 'v) list option \<Rightarrow> ('f, 'p, 'v, 'cb, 'w) hookcaller \<Rightarrow>
   (error + unit) \<times> ('f, 'p, 'v, 'cb, 'w) hookcaller \<times> ('f, 'p, 'v, 'cb) event list" where
  "call_historic hookexec run_proc proc kwargs c =
     (case call_history c of
        None \<Rightarrow> (Inl AttributeError, c, [])
      | Some h \<Rightarrow>
          (let c1 = c\<lparr>call_history :=
                      Some (h @ [((case kwargs of None \<Rightarrow> [] | Some kw \<Rightarrow> kw), proc)])\<rparr>;
               ms = nonwrappers c1 @ wrappers c1
           in case hookexec c1 ms kwargs of
                Inl e \<Rightarrow> (Inl e, c1, [Exec ms kwargs])
              | Inr res \<Rightarrow>
                  (case proc of
                     None \<Rightarrow> (Inr (), c1, [Exec ms kwargs])
                   | Some p \<Rightarrow>
                       (case call_procs run_proc p (case res of None \<Rightarrow> [] | Some xs \<Rightarrow> xs) of
                          (None, es) \<Rightarrow> (Inr (), c1, Exec ms kwargs # es)
                        | (Some e, es) \<Rightarrow> (Inl e, c1, Exec ms kwargs # es)))))"

text \<open>
  \<^verbatim>\<open>call_extra\<close>. The loop that adds the temporary implementations stands before the
  \<^verbatim>\<open>try\<close>: it ends at the first \<^verbatim>\<open>HookImpl(...)\<close> that raises, and the exception leaves
  \<^verbatim>\<open>call_extra\<close> with the implementations added so far. The \<^verbatim>\<open>finally\<close> clause puts the
  two saved lists back after \<^verbatim>\<open>self(**kwargs)\<close>, whatever its outcome.
\<close>

definition temp_opts :: impl_opts where
  "temp_opts = \<lparr>opt_hookwrapper = False, opt_optionalhook = None,
                opt_tryfirst = False, opt_trylast = False\<rparr>"

fun add_extra ::
  "'f pyfunc list \<Rightarrow> ('f, 'p, 'v, 'cb, 'w) hookcaller \<Rightarrow>
   error option \<times> ('f, 'p, 'v, 'cb, 'w) hookcaller" where
  "add_extra [] c = (None, c)"
| "add_extra (method # methods) c =
     (case HookImpl None ''<temp>'' method temp_opts of
        Inl e \<Rightarrow> (Some e, c)
      | Inr hookimpl \<Rightarrow> add_extra methods (add_hookimpl hookimpl c))"

definition call_extra ::
  "('f, 'p, 'v, 'cb, 'w) executor \<Rightarrow> 'f pyfunc list \<Rightarrow> (string \<times> 'v) list \<Rightarrow>
   ('f, 'p, 'v, 'cb, 'w) hookcaller \<Rightarrow>
   (error + 'v list option) \<times> ('f, 'p, 'v, 'cb, 'w) hookcaller \<times> ('f, 'p, 'v, 'cb) event list" where
  "call_extra hookexec methods kwargs c =
     (let old = (nonwrappers c, wrappers c) in
      case add_extra methods c of
        (Some e, c1) \<Rightarrow> (Inl e, c1, [])
      | (None, c1) \<Rightarrow>
          (case hookcaller_call hookexec [] kwargs c1 of
             (r, c2, es) \<Rightarrow> (r, c2\<lparr>nonwrappers := fst old, wrappers := snd old\<rparr>, es)))"

text \<open>
  \<^verbatim>\<open>_maybe_apply_history\<close>: the loop over the recorded calls ends at the first executor
  call or callback that raises. \<^verbatim>\<open>res\<close> is true when it is a non-empty list.
\<close>

fun apply_history ::
  "('f, 'p, 'v, 'cb, 'w) executor \<Rightarrow> ('cb \<Rightarrow> 'v \<Rightarrow> error option) \<Rightarrow>
   ('f, 'p) hookimpl \<Rightarrow> ('f, 'p, 'v, 'cb, 'w) hookcaller \<Rightarrow>
   ((string \<times> 'v) list \<times> 'cb option) list \<Rightarrow> error option \<times> ('f, 'p, 'v, 'cb) event list" where
  "apply_history hookexec run_proc method c [] = (None, [])"
| "apply_history hookexec run_proc method c ((kwargs, proc) # rest) =
     (case hookexec c [method] (Some kwargs) of
        Inl e \<Rightarrow> (Some e, [Exec [method] (Some kwargs)])
      | Inr res \<Rightarrow>
          (case (res, proc) of
             (Some (x # xs), Some p) \<Rightarrow>
               (case run_proc p x of
                  Some e \<Rightarrow> (Some e, [Exec [method] (Some kwargs), Proc p x])
                | None \<Rightarrow>
                    (case apply_history hookexec run_proc method c rest of
                       (r, es) \<Rightarrow> (r, Exec [method] (Some kwargs) # Proc p x # es)))
           | _ \<Rightarrow>
               (case apply_history hookexec run_proc method c rest of
                  (r, es) \<Rightarrow> (r, Exec [method] (Some kwargs) # es))))"

definition maybe_apply_history ::
  "('f, 'p, 'v, 'cb, 'w) executor \<Rightarrow> ('cb \<Rightarrow> 'v \<Rightarrow> error option) \<Rightarrow>
   ('f, 'p) hookimpl \<Rightarrow> ('f, 'p, 'v, 'cb, 'w) hookcaller \<Rightarrow>
   error option \<times> ('f, 'p, 'v, 'cb, 'w) hookcaller \<times> ('f, 'p, 'v, 'cb) event list" where
  "maybe_apply_history hookexec run_proc method c =
     (case call_history c of
        None \<Rightarrow> (None, c, [])
      | Some h \<Rightarrow>
          (case apply_history hookexec run_proc method c h of (r, es) \<Rightarrow> (r, c, es)))"

section \<open>Operations on a caller\<close>

text \<open>
  The operations of a \<^verbatim>\<open>_HookCaller\<close> and the caller each leaves behind, whether it returns
  or raises.
\<close>

datatype ('f, 'p, 'v, 'cb, 'w) operation =
    SetSpecification "(string \<times> 'f pyfunc) list" "'w spec_opts option"
  | RemovePlugin "'p option"
  | AddHookimpl "('f, 'p) hookimpl"
  | Call "'v list" "(string \<times> 'v) list"
  | CallHistoric "'cb option" "(string \<times> 'v) list option"
  | CallExtra "'f pyfunc list" "(string \<times> 'v) list"
  | MaybeApplyHistory "('f, 'p) hookimpl"

fun perform ::
  "('f, 'p, 'v, 'cb, 'w) executor \<Rightarrow> ('cb \<Rightarrow> 'v \<Rightarrow> error option) \<Rightarrow>
   ('f, 'p, 'v, 'cb, 'w) operation \<Rightarrow> ('f, 'p, 'v, 'cb, 'w) hookcaller \<Rightarrow>
   ('f, 'p, 'v, 'cb, 'w) hookcaller" where
  "perform hookexec run_proc (SetSpecification m so) c = snd (set_specification m so c)"
| "perform hookexec run_proc (RemovePlugin p) c = snd (remove_plugin p c)"
| "perform hookexec run_proc (AddHookimpl h) c = add_hookimpl h c"
| "perform hookexec run_proc (Call args kwargs) c = fst (snd (hookcaller_call hookexec args kwargs c))"
| "perform hookexec run_proc (CallHistoric proc kwargs) c =
     fst (snd (call_historic hookexec run_proc proc kwargs c))"
| "perform hookexec run_proc (CallExtra methods kwargs) c =
     fst (snd (call_extra hookexec methods kwargs c))"
| "perform hookexec run_proc (MaybeApplyHistory h) c =
     fst (snd (maybe_apply_history hookexec run_proc h c))"

section \<open>Callables that can be made into implementations\<close>

text \<open>\<^verbatim>\<open>varnames\<close> returns a pair for the callable, so that \<^verbatim>\<open>HookImpl(...)\<close> returns.\<close>

definition introspectable :: "'f pyfunc \<Rightarrow> bool" where
  "introspectable f = (case varnames f of Inr (Some _) \<Rightarrow> True | _ \<Rightarrow> False)"

section \<open>Orders of a chain\<close>

definition is_normal :: "('f, 'p) hookimpl \<Rightarrow> bool" where
  "is_normal h = (\<not> tryfirst h \<and> \<not> trylast h)"

text \<open>
  The order the specification states for a list of registrations: the trylast ones, the
  normal ones, the tryfirst ones, each group in registration order.
\<close>

definition spec_order :: "('f, 'p) hookimpl list \<Rightarrow> ('f, 'p) hookimpl list" where
  "spec_order hs = filter trylast hs @ filter is_normal hs @ filter tryfirst hs"

text \<open>The same with the trylast group in reverse registration order.\<close>

definition list_order :: "('f, 'p) hookimpl list \<Rightarrow> ('f, 'p) hookimpl list" where
  "list_order hs = rev (filter trylast hs) @ filter is_normal hs @ filter tryfirst hs"

section \<open>Removal as the specification words it\<close>

text \<open>
  The specification's \<^verbatim>\<open>remove\<close>: the non-wrappers are searched before the wrappers.
\<close>

definition remove_plugin_spec ::
  "'p option \<Rightarrow> ('f, 'p, 'v, 'cb, 'w) hookcaller \<Rightarrow>
   error option \<times> ('f, 'p, 'v, 'cb, 'w) hookcaller" where
  "remove_plugin_spec p c =
     (case remove p (nonwrappers c) of
        Some ns \<Rightarrow> (None, c\<lparr>nonwrappers := ns\<rparr>)
      | None \<Rightarrow>
          (case remove p (wrappers c) of
             Some ws \<Rightarrow> (None, c\<lparr>wrappers := ws\<rparr>)
           | None \<Rightarrow> (Some ValueError, c)))"

text \<open>The implementation belongs to the plugin.\<close>

definition owned_by :: "'p option \<Rightarrow> ('f, 'p) hookimpl \<Rightarrow> bool" where
  "owned_by p m = (plugin m = p)"

section \<open>Replay as the specification words it\<close>

text \<open>
  The external calls of a replay of the history against one implementation: for each
  recorded call, in recording order, one executor call on that implementation alone, then
  the recorded callback once for each result the executor returned.
\<close>

definition replay_events ::
  "('f, 'p, 'v, 'cb, 'w) executor \<Rightarrow> ('f, 'p) hookimpl \<Rightarrow> ('f, 'p, 'v, 'cb, 'w) hookcaller \<Rightarrow>
   ((string \<times> 'v) list \<times> 'cb option) list \<Rightarrow> ('f, 'p, 'v, 'cb) event list" where
  "replay_events hookexec method c hist =
     concat (map (\<lambda>(kwargs, proc).
       Exec [method] (Some kwargs) #
       (case (hookexec c [method] (Some kwargs), proc) of
          (Inr (Some xs), Some p) \<Rightarrow> map (Proc p) xs
        | _ \<Rightarrow> [])) hist)"

text \<open>
  The external calls of a replay in which the callback gets the first result only: for
  each recorded call, in recording order, one executor call on the implementation alone,
  then the recorded callback once, with the first result, when the executor returned a
  non-empty list and a callback was recorded.
\<close>

definition first_result_events ::
  "('f, 'p, 'v, 'cb, 'w) executor \<Rightarrow> ('f, 'p) hookimpl \<Rightarrow> ('f, 'p, 'v, 'cb, 'w) hookcaller \<Rightarrow>
   ((string \<times> 'v) list \<times> 'cb option) list \<Rightarrow> ('f, 'p, 'v, 'cb) event list" where
  "first_result_events hookexec method c hist =
     concat (map (\<lambda>(kwargs, proc).
       Exec [method] (Some kwargs) #
       (case (hookexec c [method] (Some kwargs), proc) of
          (Inr (Some (x # xs)), Some p) \<Rightarrow> [Proc p x]
        | _ \<Rightarrow> [])) hist)"


text \<open>The executor returns at most one result for the recorded call.\<close>

definition at_most_one_result ::
  "('f, 'p, 'v, 'cb, 'w) executor \<Rightarrow> ('f, 'p) hookimpl \<Rightarrow> ('f, 'p, 'v, 'cb, 'w) hookcaller \<Rightarrow>
   (string \<times> 'v) list \<times> 'cb option \<Rightarrow> bool" where
  "at_most_one_result hookexec method c entry =
     (case hookexec c [method] (Some (fst entry)) of
        Inr (Some (x # y # zs)) \<Rightarrow> False
      | _ \<Rightarrow> True)"

section \<open>Concrete callers and implementations\<close>

definition example_func :: "nat \<Rightarrow> nat pyfunc" where
  "example_func n =
     \<lparr>ident = n, cached_varnames = None,
      shape = PyRoutine \<lparr>argspec = Some ([''x''], 0), ismethod = False, dotted_qualname = False\<rparr>\<rparr>"

definition example_impl :: "nat \<Rightarrow> bool \<Rightarrow> bool \<Rightarrow> bool \<Rightarrow> (nat, nat) hookimpl" where
  "example_impl n w tf tlast =
     \<lparr>func = example_func n, argnames = [''x''], kwargnames = [], plugin = Some n,
      plugin_name = ''plugin'', hookwrapper = w, optionalhook = Some False,
      tryfirst = tf, trylast = tlast\<rparr>"

definition example_caller :: "(nat, nat, nat, nat, nat) hookcaller" where
  "example_caller = unbound_caller ''myhook'' None"

definition example_exec :: "(nat, nat, nat, nat, nat) executor" where
  "example_exec c ms kw = Inr (Some (map (\<lambda>m. ident (func m)) ms))"

definition legacy_impl :: "nat \<Rightarrow> (nat, nat) hookimpl" where
  "legacy_impl n = (example_impl n False False False)\<lparr>argnames := [''__multicall__'', ''x'']\<rparr>"

definition example_proc :: "nat \<Rightarrow> nat \<Rightarrow> error option" where
  "example_proc p x = None"

definition self_func :: "nat \<Rightarrow> nat pyfunc" where
  "self_func n =
     \<lparr>ident = n, cached_varnames = None,
      shape = PyRoutine \<lparr>argspec = Some ([''self''], 0), ismethod = False, dotted_qualname = False\<rparr>\<rparr>"

definition failing_exec :: "(nat, nat, nat, nat, nat) executor" where
  "failing_exec c ms kw = Inl (Raised ''RuntimeError'')"

definition doubling_exec :: "(nat, nat, nat, nat, nat) executor" where
  "doubling_exec c ms kw =
     Inr (Some (map (\<lambda>m. 2 * (case map_of (case kw of None \<Rightarrow> [] | Some k \<Rightarrow> k) ''x'' of
                                  None \<Rightarrow> 0 | Some v \<Rightarrow> v)) ms))"

text \<open>
  A caller bound to a historic specification, after one \<^verbatim>\<open>call_historic\<close> with the keyword
  argument \<open>x = 1\<close> and the callback 7.
\<close>

definition historic_opts :: "nat spec_opts" where
  "historic_opts = \<lparr>firstresult = Some False, historic = Some True, opt_warn_on_impl = Some None\<rparr>"

definition historic_caller :: "(nat, nat, nat, nat, nat) hookcaller" where
  "historic_caller =
     fst (snd (call_historic example_exec example_proc (Some 7) (Some [(''x'', 1)])
       (snd (set_specification [(''myhook'', example_func 0)] (Some historic_opts)
          example_caller))))"


definition two_results_exec :: "(nat, nat, nat, nat, nat) executor" where
  "two_results_exec c ms kw =
     Inr (Some (concat (map (\<lambda>m.
       [2 * (case map_of (case kw of None \<Rightarrow> [] | Some k \<Rightarrow> k) ''x'' of
               None \<Rightarrow> 0 | Some v \<Rightarrow> v),
        2 * (case map_of (case kw of None \<Rightarrow> [] | Some k \<Rightarrow> k) ''x'' of
               None \<Rightarrow> 0 | Some v \<Rightarrow> v) + 1]) ms)))"

lemmas example_defs =
  example_impl_def example_func_def example_caller_def unbound_caller_def example_exec_def

lemma historic_caller_history: "call_history historic_caller = Some [([(''x'', 1)], Some 7)]"
  by (simp add: historic_caller_def historic_opts_def example_defs call_historic_def
      set_specification_def has_spec_def varnames_def inspect_routine_def Let_def)

lemma historic_caller_lists: "nonwrappers historic_caller = [] \<and> wrappers historic_caller = []"
  by (simp add: historic_caller_def historic_opts_def example_defs call_historic_def
      set_specification_def has_spec_def varnames_def inspect_routine_def Let_def)

section \<open>Insertion order\<close>

lemma last_non_tryfirst_prefix:
  "k \<le> length A \<Longrightarrow> last_non_tryfirst (A @ B) k = last_non_tryfirst A k"
  by (induction k) (auto simp: nth_append)

lemma last_non_tryfirst_skip:
  "\<forall>x\<in>set B. tryfirst x \<Longrightarrow>
   last_non_tryfirst (A @ B) (length A + length B) = last_non_tryfirst A (length A)"
proof (induction B rule: rev_induct)
  case Nil
  then show ?case by simp
next
  case (snoc x B)
  have "last_non_tryfirst ((A @ B) @ [x]) (Suc (length A + length B))
        = last_non_tryfirst ((A @ B) @ [x]) (length A + length B)"
    using snoc.prems by (simp add: nth_append)
  also have "\<dots> = last_non_tryfirst (A @ B) (length A + length B)"
    by (rule last_non_tryfirst_prefix) simp
  finally show ?case using snoc by simp
qed

lemma insert_at_normal:
  assumes "\<forall>x\<in>set A. \<not> tryfirst x" and "\<forall>x\<in>set B. tryfirst x"
  shows "insert_at (last_non_tryfirst (A @ B) (length (A @ B))) h (A @ B) = A @ h # B"
proof -
  have "last_non_tryfirst A (length A) = length A"
  proof (cases A rule: rev_cases)
    case Nil
    then show ?thesis by simp
  next
    case (snoc A' x)
    then show ?thesis using assms(1) by simp
  qed
  then have "last_non_tryfirst (A @ B) (length (A @ B)) = length A"
    using last_non_tryfirst_skip [OF assms(2), of A] by simp
  then show ?thesis by (simp add: insert_at_def)
qed

lemma list_order_snoc:
  assumes "\<forall>x\<in>set hs. \<not> (tryfirst x \<and> trylast x)" and "\<not> (tryfirst h \<and> trylast h)"
  shows "list_order (hs @ [h]) =
     (if trylast h then insert_at 0 h (list_order hs)
      else if tryfirst h then list_order hs @ [h]
      else insert_at (last_non_tryfirst (list_order hs) (length (list_order hs))) h (list_order hs))"
proof -
  let ?A = "rev (filter trylast hs) @ filter is_normal hs"
  let ?B = "filter tryfirst hs"
  have A: "\<forall>x\<in>set ?A. \<not> tryfirst x" using assms(1) by (auto simp: is_normal_def)
  have B: "\<forall>x\<in>set ?B. tryfirst x" by simp
  have eq: "list_order hs = ?A @ ?B" by (simp add: list_order_def)
  show ?thesis
  proof (cases "trylast h")
    case True
    then show ?thesis using assms(2) by (simp add: list_order_def insert_at_def is_normal_def)
  next
    case False
    show ?thesis
    proof (cases "tryfirst h")
      case True
      then show ?thesis using False by (simp add: list_order_def is_normal_def)
    next
      case nf: False
      have "insert_at (last_non_tryfirst (?A @ ?B) (length (?A @ ?B))) h (?A @ ?B) = ?A @ h # ?B"
        by (rule insert_at_normal [OF A B])
      then show ?thesis using False nf unfolding eq by (simp add: list_order_def is_normal_def)
    qed
  qed
qed

lemma add_hookimpl_nonwrappers:
  "nonwrappers (add_hookimpl h c) =
     (if hookwrapper h then nonwrappers c
      else if trylast h then insert_at 0 h (nonwrappers c)
      else if tryfirst h then nonwrappers c @ [h]
      else insert_at (last_non_tryfirst (nonwrappers c) (length (nonwrappers c))) h (nonwrappers c))"
  by (simp add: add_hookimpl_def Let_def)

lemma add_hookimpl_wrappers:
  "wrappers (add_hookimpl h c) =
     (if \<not> hookwrapper h then wrappers c
      else if trylast h then insert_at 0 h (wrappers c)
      else if tryfirst h then wrappers c @ [h]
      else insert_at (last_non_tryfirst (wrappers c) (length (wrappers c))) h (wrappers c))"
  by (simp add: add_hookimpl_def Let_def)

lemma fold_add_hookimpl_lists:
  assumes "nonwrappers c = []" and "wrappers c = []"
    and "\<forall>h\<in>set hs. \<not> (tryfirst h \<and> trylast h)"
  shows "nonwrappers (fold add_hookimpl hs c) = list_order (filter (\<lambda>h. \<not> hookwrapper h) hs) \<and>
         wrappers (fold add_hookimpl hs c) = list_order (filter hookwrapper hs)"
  using assms(3)
proof (induction hs rule: rev_induct)
  case Nil
  then show ?case using assms(1,2) by (simp add: list_order_def)
next
  case (snoc h hs)
  let ?c = "fold add_hookimpl hs c"
  have IH: "nonwrappers ?c = list_order (filter (\<lambda>h. \<not> hookwrapper h) hs)"
           "wrappers ?c = list_order (filter hookwrapper hs)"
    using snoc by simp_all
  have h: "\<not> (tryfirst h \<and> trylast h)" using snoc.prems by simp
  have nw: "\<forall>x\<in>set (filter (\<lambda>h. \<not> hookwrapper h) hs). \<not> (tryfirst x \<and> trylast x)"
    and w: "\<forall>x\<in>set (filter hookwrapper hs). \<not> (tryfirst x \<and> trylast x)"
    using snoc.prems by auto
  have step: "fold add_hookimpl (hs @ [h]) c = add_hookimpl h ?c" by simp
  show ?case
  proof (cases "hookwrapper h")
    case True
    then show ?thesis
      unfolding step add_hookimpl_nonwrappers add_hookimpl_wrappers IH
      using list_order_snoc [OF w h] by simp
  next
    case False
    then show ?thesis
      unfolding step add_hookimpl_nonwrappers add_hookimpl_wrappers IH
      using list_order_snoc [OF nw h] by simp
  qed
qed

lemma add_hookimpl_call_history: "call_history (add_hookimpl h c) = call_history c"
  by (simp add: add_hookimpl_def Let_def)

lemma fold_add_hookimpl_call_history: "call_history (fold add_hookimpl hs c) = call_history c"
  by (induction hs arbitrary: c) (simp_all add: add_hookimpl_call_history)

text \<open>
  C1, as the code has it. On a caller whose two lists are empty (a new one), after any
  sequence of \<^verbatim>\<open>_add_hookimpl\<close> calls in which no implementation is both tryfirst and
  trylast, the list of non-wrappers is: the trylast non-wrappers in reverse registration
  order (each is inserted at index 0), then the normal ones in registration order, then the
  tryfirst ones in registration order. It depends on the non-wrapper registrations only,
  the list of wrappers on the wrapper registrations only, and \<^verbatim>\<open>__call__\<close> hands the executor
  the non-wrappers followed by the wrappers.
\<close>

theorem add_hookimpl_order:
  fixes c :: "('f, 'p, 'v, 'cb, 'w) hookcaller"
  assumes "nonwrappers c = [] \<and> wrappers c = []"
    and "\<forall>h\<in>set hs. \<not> (tryfirst h \<and> trylast h)"
    and "c' = fold add_hookimpl hs c"
  shows "nonwrappers c' = list_order (filter (\<lambda>h. \<not> hookwrapper h) hs) \<and>
         wrappers c' = list_order (filter hookwrapper hs) \<and>
         (\<not> is_historic c \<longrightarrow>
            hookcaller_call hookexec [] kwargs c' =
              (hookexec c' (nonwrappers c' @ wrappers c') (Some kwargs), c',
               [Exec (nonwrappers c' @ wrappers c') (Some kwargs)]))"
proof -
  have lists: "nonwrappers c' = list_order (filter (\<lambda>h. \<not> hookwrapper h) hs) \<and>
               wrappers c' = list_order (filter hookwrapper hs)"
    unfolding assms(3)
    using assms(1) by (intro fold_add_hookimpl_lists [OF _ _ assms(2)]) simp_all
  have "is_historic c' = is_historic c"
    unfolding assms(3) is_historic_def by (simp add: fold_add_hookimpl_call_history)
  then have "\<not> is_historic c \<longrightarrow>
            hookcaller_call hookexec [] kwargs c' =
              (hookexec c' (nonwrappers c' @ wrappers c') (Some kwargs), c',
               [Exec (nonwrappers c' @ wrappers c') (Some kwargs)])"
    by (simp add: hookcaller_call_def)
  with lists show ?thesis by simp
qed

theorem add_hookimpl_order_witness:
  "list_all (\<lambda>h. \<not> (tryfirst h \<and> trylast h))
     [example_impl 1 False False True, example_impl 2 False False False,
      example_impl 3 True False False, example_impl 4 False True False,
      example_impl 5 False False True, example_impl 6 False False False] \<and>
   nonwrappers (fold add_hookimpl
     [example_impl 1 False False True, example_impl 2 False False False,
      example_impl 3 True False False, example_impl 4 False True False,
      example_impl 5 False False True, example_impl 6 False False False] example_caller) =
     [example_impl 5 False False True, example_impl 1 False False True,
      example_impl 2 False False False, example_impl 6 False False False,
      example_impl 4 False True False] \<and>
   wrappers (fold add_hookimpl
     [example_impl 1 False False True, example_impl 2 False False False,
      example_impl 3 True False False, example_impl 4 False True False,
      example_impl 5 False False True, example_impl 6 False False False] example_caller) =
     [example_impl 3 True False False] \<and>
   fst (hookcaller_call example_exec [] [(''x'', 0)] (fold add_hookimpl
     [example_impl 1 False False True, example_impl 2 False False False,
      example_impl 3 True False False, example_impl 4 False True False,
      example_impl 5 False False True, example_impl 6 False False False] example_caller)) =
     Inr (Some [5, 1, 2, 6, 4, 3])"
  using add_hookimpl_order [of example_caller
     "[example_impl 1 False False True, example_impl 2 False False False,
       example_impl 3 True False False, example_impl 4 False True False,
       example_impl 5 False False True, example_impl 6 False False False]"
     "fold add_hookimpl
       [example_impl 1 False False True, example_impl 2 False False False,
        example_impl 3 True False False, example_impl 4 False True False,
        example_impl 5 False False True, example_impl 6 False False False] example_caller"
     example_exec "[(''x'', 0)]"]
  by (simp add: example_impl_def example_func_def example_exec_def list_order_def
      is_normal_def is_historic_def example_caller_def unbound_caller_def)

theorem add_hookimpl_order_counterexample:
  "nonwrappers (fold add_hookimpl
     [example_impl 1 False False True, example_impl 2 False False True] example_caller) =
     [example_impl 2 False False True, example_impl 1 False False True] \<and>
   spec_order [example_impl 1 False False True, example_impl 2 False False True] =
     [example_impl 1 False False True, example_impl 2 False False True] \<and>
   nonwrappers (fold add_hookimpl
     [example_impl 1 False False True, example_impl 2 False False True] example_caller) \<noteq>
   spec_order [example_impl 1 False False True, example_impl 2 False False True] \<and>
   nonwrappers (fold add_hookimpl
     [example_impl 3 False True True, example_impl 4 False False False] example_caller) =
     [example_impl 4 False False False, example_impl 3 False True True] \<and>
   list_order [example_impl 3 False True True, example_impl 4 False False False] =
     [example_impl 3 False True True, example_impl 4 False False False,
      example_impl 3 False True True]"
  by (simp add: example_defs add_hookimpl_def insert_at_def spec_order_def list_order_def
      is_normal_def)

section \<open>Contradictory flags\<close>

text \<open>
  C5, as the code has it. \<^verbatim>\<open>_add_hookimpl\<close> has no failure path: an implementation with
  tryfirst and trylast both true is accepted, and is placed like a trylast one, at the
  front of the list its \<^verbatim>\<open>hookwrapper\<close> flag selects; the other list is unchanged.
\<close>

theorem add_hookimpl_both_flags:
  assumes "tryfirst h \<and> trylast h"
  shows "(hookwrapper h \<longrightarrow>
            wrappers (add_hookimpl h c) = h # wrappers c \<and>
            nonwrappers (add_hookimpl h c) = nonwrappers c) \<and>
         (\<not> hookwrapper h \<longrightarrow>
            nonwrappers (add_hookimpl h c) = h # nonwrappers c \<and>
            wrappers (add_hookimpl h c) = wrappers c)"
  using assms by (simp add: add_hookimpl_nonwrappers add_hookimpl_wrappers insert_at_def)

theorem add_hookimpl_both_flags_witness:
  "tryfirst (example_impl 7 False True True) \<and> trylast (example_impl 7 False True True) \<and>
   nonwrappers (add_hookimpl (example_impl 7 False True True)
     (add_hookimpl (example_impl 1 False False False) example_caller)) =
     [example_impl 7 False True True, example_impl 1 False False False] \<and>
   wrappers (add_hookimpl (example_impl 8 True True True) example_caller) =
     [example_impl 8 True True True]"
  using add_hookimpl_both_flags [of "example_impl 7 False True True"
      "add_hookimpl (example_impl 1 False False False) example_caller"]
    add_hookimpl_both_flags [of "example_impl 8 True True True" example_caller]
  by (simp add: example_defs add_hookimpl_def insert_at_def)

theorem add_hookimpl_both_flags_counterexample:
  "tryfirst (example_impl 7 False True True) \<and> trylast (example_impl 7 False True True) \<and>
   nonwrappers (add_hookimpl (example_impl 7 False True True) example_caller) =
     [example_impl 7 False True True]"
  by (simp add: example_defs add_hookimpl_def insert_at_def)

section \<open>The legacy dispatcher\<close>

lemma add_hookimpl_multicall:
  "multicall (add_hookimpl h c) =
     (if ''__multicall__'' \<in> set (argnames h) then LegacyMulticall else multicall c)"
  by (simp add: add_hookimpl_def Let_def)

lemma add_extra_multicall_legacy:
  "multicall c = LegacyMulticall \<Longrightarrow> multicall (snd (add_extra methods c)) = LegacyMulticall"
proof (induction methods arbitrary: c)
  case Nil
  then show ?case by simp
next
  case (Cons m methods)
  show ?case
  proof (cases "HookImpl None ''<temp>'' m temp_opts :: error + ('a, 'b) hookimpl")
    case (Inl e)
    then show ?thesis using Cons.prems by simp
  next
    case (Inr h)
    have "multicall (add_hookimpl h c) = LegacyMulticall"
      using Cons.prems by (simp add: add_hookimpl_multicall)
    then show ?thesis using Inr Cons.IH by simp
  qed
qed

lemma set_specification_multicall: "multicall (snd (set_specification m so c)) = multicall c"
  by (simp add: set_specification_def Let_def split: option.splits sum.splits prod.splits)

lemma remove_plugin_multicall: "multicall (snd (remove_plugin p c)) = multicall c"
  by (simp add: remove_plugin_def split: option.splits)

lemma hookcaller_call_state: "fst (snd (hookcaller_call hookexec args kwargs c)) = c"
  by (simp add: hookcaller_call_def)

lemma call_historic_multicall:
  "multicall (fst (snd (call_historic hookexec run_proc proc kwargs c))) = multicall c"
  by (simp add: call_historic_def Let_def split: option.splits sum.splits prod.splits)

lemma call_extra_multicall_legacy:
  assumes "multicall c = LegacyMulticall"
  shows "multicall (fst (snd (call_extra hookexec methods kwargs c))) = LegacyMulticall"
proof -
  obtain r c1 where a: "add_extra methods c = (r, c1)" by (cases "add_extra methods c")
  have c1: "multicall c1 = LegacyMulticall"
    using add_extra_multicall_legacy [OF assms, of methods] a by simp
  show ?thesis
  proof (cases r)
    case None
    obtain r2 c2 es where b: "hookcaller_call hookexec [] kwargs c1 = (r2, c2, es)"
      by (cases "hookcaller_call hookexec [] kwargs c1")
    have "c2 = c1" using hookcaller_call_state [of hookexec "[]" kwargs c1] b by simp
    then show ?thesis using a b c1 None by (simp add: call_extra_def)
  next
    case (Some e)
    then show ?thesis using a c1 by (simp add: call_extra_def)
  qed
qed

lemma maybe_apply_history_state: "fst (snd (maybe_apply_history hookexec run_proc h c)) = c"
  by (simp add: maybe_apply_history_def split: option.splits prod.splits)

lemma perform_multicall_legacy:
  "multicall c = LegacyMulticall \<Longrightarrow> multicall (perform hookexec run_proc op c) = LegacyMulticall"
  by (cases op)
    (simp_all add: set_specification_multicall remove_plugin_multicall add_hookimpl_multicall
      hookcaller_call_state call_historic_multicall call_extra_multicall_legacy
      maybe_apply_history_state)

lemma fold_perform_multicall_legacy:
  "multicall c = LegacyMulticall \<Longrightarrow>
   multicall (fold (perform hookexec run_proc) ops c) = LegacyMulticall"
  by (induction ops arbitrary: c) (simp_all add: perform_multicall_legacy)

text \<open>
  C9. \<^verbatim>\<open>_add_hookimpl\<close> of an implementation whose argument names contain
  \<^verbatim>\<open>__multicall__\<close> sets the caller's dispatcher to the legacy multicall, and it stays so
  after any sequence of later operations on the caller, so every later executor call
  receives a caller whose dispatcher is the legacy one. Adding an implementation without
  that name leaves the dispatcher as it was.
\<close>

theorem add_hookimpl_legacy_multicall:
  "(''__multicall__'' \<in> set (argnames h) \<longrightarrow>
      multicall (fold (perform hookexec run_proc) ops (add_hookimpl h c)) = LegacyMulticall) \<and>
   (''__multicall__'' \<notin> set (argnames h) \<longrightarrow> multicall (add_hookimpl h c) = multicall c)"
  by (simp add: add_hookimpl_multicall fold_perform_multicall_legacy)

theorem add_hookimpl_legacy_multicall_witness:
  "''__multicall__'' \<in> set (argnames (legacy_impl 1)) \<and>
   multicall example_caller = Multicall \<and>
   multicall (fold (perform example_exec example_proc)
     [AddHookimpl (example_impl 2 False False False), Call [] [(''x'', 5)],
      RemovePlugin (Some 1), CallExtra [example_func 3] [(''x'', 5)]]
     (add_hookimpl (legacy_impl 1) example_caller)) = LegacyMulticall \<and>
   ''__multicall__'' \<notin> set (argnames (example_impl 2 False False False)) \<and>
   multicall (add_hookimpl (example_impl 2 False False False) example_caller) = Multicall"
  using add_hookimpl_legacy_multicall [of "legacy_impl 1" example_exec example_proc
      "[AddHookimpl (example_impl 2 False False False), Call [] [(''x'', 5)],
        RemovePlugin (Some 1), CallExtra [example_func 3] [(''x'', 5)]]" example_caller]
    add_hookimpl_legacy_multicall [of "example_impl 2 False False False" example_exec
      example_proc "[]" example_caller]
  by (simp add: example_defs legacy_impl_def)

section \<open>Removal\<close>

lemma remove_None_iff: "remove p ms = None \<longleftrightarrow> (\<forall>m\<in>set ms. plugin m \<noteq> p)"
  by (induction ms) (auto split: option.splits)

lemma remove_first_match:
  "\<forall>y\<in>set pre. plugin y \<noteq> p \<Longrightarrow> plugin x = p \<Longrightarrow>
   remove p (pre @ x # post) = Some (pre @ post)"
  by (induction pre) simp_all

lemma remove_Some_split:
  "remove p ms = Some ms' \<Longrightarrow>
   \<exists>pre x post. ms = pre @ x # post \<and> plugin x = p \<and> (\<forall>y\<in>set pre. plugin y \<noteq> p) \<and>
     ms' = pre @ post"
proof (induction ms arbitrary: ms')
  case Nil
  then show ?case by simp
next
  case (Cons m ms)
  show ?case
  proof (cases "plugin m = p")
    case True
    then have "ms' = ms" using Cons.prems by simp
    then have "m # ms = [] @ m # ms \<and> plugin m = p \<and> (\<forall>y\<in>set []. plugin y \<noteq> p) \<and> ms' = [] @ ms"
      using True by simp
    then show ?thesis by blast
  next
    case False
    then obtain ms'' where r: "remove p ms = Some ms''" and e: "ms' = m # ms''"
      using Cons.prems by (auto split: option.splits)
    from Cons.IH [OF r] obtain pre x post where
      s: "ms = pre @ x # post" "plugin x = p" "\<forall>y\<in>set pre. plugin y \<noteq> p" "ms'' = pre @ post"
      by blast
    have "m # ms = (m # pre) @ x # post \<and> plugin x = p \<and>
          (\<forall>y\<in>set (m # pre). plugin y \<noteq> p) \<and> ms' = (m # pre) @ post"
      using s e False by simp
    then show ?thesis by blast
  qed
qed

text \<open>
  C2, as the code has it. \<^verbatim>\<open>_remove_plugin\<close> searches the wrappers first and the
  non-wrappers only when no wrapper belongs to the plugin. It deletes the first entry of
  the plugin in the list where it finds one, keeps every other entry of both lists in its
  place, and raises \<^verbatim>\<open>ValueError\<close>, changing nothing, exactly when neither list has an entry
  of the plugin.
\<close>

theorem remove_plugin_first_entry:
  "(wrappers c = pre @ x # post \<and> plugin x = p \<and> (\<forall>y\<in>set pre. plugin y \<noteq> p) \<longrightarrow>
      remove_plugin p c = (None, c\<lparr>wrappers := pre @ post\<rparr>)) \<and>
   ((\<forall>y\<in>set (wrappers c). plugin y \<noteq> p) \<and>
    nonwrappers c = pre @ x # post \<and> plugin x = p \<and> (\<forall>y\<in>set pre. plugin y \<noteq> p) \<longrightarrow>
      remove_plugin p c = (None, c\<lparr>nonwrappers := pre @ post\<rparr>)) \<and>
   (remove_plugin p c = (Some ValueError, c) \<longleftrightarrow>
      (\<forall>y\<in>set (wrappers c) \<union> set (nonwrappers c). plugin y \<noteq> p))"
proof (intro conjI impI)
  assume "wrappers c = pre @ x # post \<and> plugin x = p \<and> (\<forall>y\<in>set pre. plugin y \<noteq> p)"
  then have "remove p (wrappers c) = Some (pre @ post)"
    using remove_first_match [of pre p x post] by simp
  then show "remove_plugin p c = (None, c\<lparr>wrappers := pre @ post\<rparr>)"
    by (simp add: remove_plugin_def)
next
  assume a: "(\<forall>y\<in>set (wrappers c). plugin y \<noteq> p) \<and>
    nonwrappers c = pre @ x # post \<and> plugin x = p \<and> (\<forall>y\<in>set pre. plugin y \<noteq> p)"
  then have "remove p (wrappers c) = None" by (simp add: remove_None_iff)
  moreover have "remove p (nonwrappers c) = Some (pre @ post)"
    using a remove_first_match [of pre p x post] by simp
  ultimately show "remove_plugin p c = (None, c\<lparr>nonwrappers := pre @ post\<rparr>)"
    by (simp add: remove_plugin_def)
next
  show "remove_plugin p c = (Some ValueError, c) \<longleftrightarrow>
      (\<forall>y\<in>set (wrappers c) \<union> set (nonwrappers c). plugin y \<noteq> p)"
  proof -
    have "remove_plugin p c = (Some ValueError, c) \<longleftrightarrow>
          remove p (wrappers c) = None \<and> remove p (nonwrappers c) = None"
      by (simp add: remove_plugin_def split: option.splits)
    then show ?thesis by (auto simp: remove_None_iff)
  qed
qed

theorem remove_plugin_first_entry_witness:
  "remove_plugin (Some 1)
     (fold add_hookimpl
        [example_impl 2 True False False, example_impl 1 True False False,
         example_impl 1 True True False, example_impl 1 False False False] example_caller) =
   (None, (fold add_hookimpl
        [example_impl 2 True False False, example_impl 1 True False False,
         example_impl 1 True True False, example_impl 1 False False False] example_caller)
      \<lparr>wrappers := [example_impl 2 True False False, example_impl 1 True True False]\<rparr>) \<and>
   remove_plugin (Some 1)
     (fold add_hookimpl
        [example_impl 2 True False False, example_impl 3 False False False,
         example_impl 1 False False False, example_impl 1 False True False] example_caller) =
   (None, (fold add_hookimpl
        [example_impl 2 True False False, example_impl 3 False False False,
         example_impl 1 False False False, example_impl 1 False True False] example_caller)
      \<lparr>nonwrappers := [example_impl 3 False False False, example_impl 1 False True False]\<rparr>) \<and>
   remove_plugin (Some 4)
     (fold add_hookimpl
        [example_impl 2 True False False, example_impl 3 False False False] example_caller) =
   (Some ValueError, fold add_hookimpl
        [example_impl 2 True False False, example_impl 3 False False False] example_caller)"
  using remove_plugin_first_entry [of
      "fold add_hookimpl
        [example_impl 2 True False False, example_impl 1 True False False,
         example_impl 1 True True False, example_impl 1 False False False] example_caller"
      "[example_impl 2 True False False]" "example_impl 1 True False False"
      "[example_impl 1 True True False]" "Some 1"]
    remove_plugin_first_entry [of
      "fold add_hookimpl
        [example_impl 2 True False False, example_impl 3 False False False,
         example_impl 1 False False False, example_impl 1 False True False] example_caller"
      "[example_impl 3 False False False]" "example_impl 1 False False False"
      "[example_impl 1 False True False]" "Some 1"]
    remove_plugin_first_entry [of
      "fold add_hookimpl
        [example_impl 2 True False False, example_impl 3 False False False] example_caller"
      "[]" "example_impl 4 False False False" "[]" "Some 4"]
  by (simp add: example_defs add_hookimpl_def insert_at_def)

theorem remove_plugin_first_entry_counterexample:
  "nonwrappers (snd (remove_plugin (Some 1)
     (fold add_hookimpl [example_impl 1 False False False, example_impl 1 True False False]
        example_caller))) = [example_impl 1 False False False] \<and>
   wrappers (snd (remove_plugin (Some 1)
     (fold add_hookimpl [example_impl 1 False False False, example_impl 1 True False False]
        example_caller))) = [] \<and>
   nonwrappers (snd (remove_plugin_spec (Some 1)
     (fold add_hookimpl [example_impl 1 False False False, example_impl 1 True False False]
        example_caller))) = [] \<and>
   wrappers (snd (remove_plugin_spec (Some 1)
     (fold add_hookimpl [example_impl 1 False False False, example_impl 1 True False False]
        example_caller))) = [example_impl 1 True False False] \<and>
   remove_plugin (Some 1)
     (fold add_hookimpl [example_impl 1 False False False, example_impl 1 True False False]
        example_caller) \<noteq>
   remove_plugin_spec (Some 1)
     (fold add_hookimpl [example_impl 1 False False False, example_impl 1 True False False]
        example_caller)"
  by (simp add: example_defs add_hookimpl_def insert_at_def remove_plugin_def
      remove_plugin_spec_def)

text \<open>
  C10. A \<^verbatim>\<open>_remove_plugin\<close> call that returns has deleted exactly one entry: in the search
  order the code uses (wrappers, then non-wrappers) the entries of the plugin afterwards
  are those before without the first; the entries of other plugins are unchanged in both
  lists; each list is a subsequence of what it was. A call that raises has changed nothing.
\<close>

theorem remove_plugin_one_entry:
  "(remove_plugin p c = (None, c') \<longrightarrow>
      filter (owned_by p) (wrappers c' @ nonwrappers c') =
        tl (filter (owned_by p) (wrappers c @ nonwrappers c)) \<and>
      filter (owned_by p) (wrappers c @ nonwrappers c) \<noteq> [] \<and>
      filter (\<lambda>m. \<not> owned_by p m) (wrappers c') = filter (\<lambda>m. \<not> owned_by p m) (wrappers c) \<and>
      filter (\<lambda>m. \<not> owned_by p m) (nonwrappers c') = filter (\<lambda>m. \<not> owned_by p m) (nonwrappers c) \<and>
      subseq (wrappers c') (wrappers c) \<and> subseq (nonwrappers c') (nonwrappers c) \<and>
      length (wrappers c') + length (nonwrappers c') + 1 =
        length (wrappers c) + length (nonwrappers c)) \<and>
   (remove_plugin p c = (Some e, c') \<longrightarrow> c' = c)"
proof -
  have removed: "filter (owned_by p) (wrappers c' @ nonwrappers c') =
        tl (filter (owned_by p) (wrappers c @ nonwrappers c)) \<and>
      filter (owned_by p) (wrappers c @ nonwrappers c) \<noteq> [] \<and>
      filter (\<lambda>m. \<not> owned_by p m) (wrappers c') = filter (\<lambda>m. \<not> owned_by p m) (wrappers c) \<and>
      filter (\<lambda>m. \<not> owned_by p m) (nonwrappers c') = filter (\<lambda>m. \<not> owned_by p m) (nonwrappers c) \<and>
      subseq (wrappers c') (wrappers c) \<and> subseq (nonwrappers c') (nonwrappers c) \<and>
      length (wrappers c') + length (nonwrappers c') + 1 =
        length (wrappers c) + length (nonwrappers c)"
    if ok: "remove_plugin p c = (None, c')"
  proof (cases "remove p (wrappers c)")
    case (Some ws)
    then have c': "c' = c\<lparr>wrappers := ws\<rparr>" using ok by (simp add: remove_plugin_def)
    from remove_Some_split [OF Some] obtain pre x post where
      s: "wrappers c = pre @ x # post" "plugin x = p" "\<forall>y\<in>set pre. plugin y \<noteq> p"
         "ws = pre @ post"
      by blast
    have pre: "filter (owned_by p) pre = []" using s(3) by (simp add: owned_by_def)
    have sub: "subseq (pre @ post) (pre @ x # post)"
      by (simp add: subseq_append_iff) (metis subseq_Cons' subseq_order.order_refl)
    show ?thesis using c' s pre sub by (simp add: owned_by_def)
  next
    case None
    then obtain ns where ns: "remove p (nonwrappers c) = Some ns"
      and c': "c' = c\<lparr>nonwrappers := ns\<rparr>"
      using ok by (auto simp: remove_plugin_def split: option.splits)
    from remove_Some_split [OF ns] obtain pre x post where
      s: "nonwrappers c = pre @ x # post" "plugin x = p" "\<forall>y\<in>set pre. plugin y \<noteq> p"
         "ns = pre @ post"
      by blast
    have pre: "filter (owned_by p) pre = []" using s(3) by (simp add: owned_by_def)
    have ws: "filter (owned_by p) (wrappers c) = []"
      using None by (simp add: remove_None_iff owned_by_def)
    have sub: "subseq (pre @ post) (pre @ x # post)"
      by (simp add: subseq_append_iff) (metis subseq_Cons' subseq_order.order_refl)
    show ?thesis using c' s pre ws sub by (simp add: owned_by_def)
  qed
  have raised: "c' = c" if "remove_plugin p c = (Some e, c')"
    using that by (auto simp: remove_plugin_def split: option.splits)
  from removed raised show ?thesis by blast
qed

theorem remove_plugin_one_entry_witness:
  "remove_plugin (Some 1)
     (fold add_hookimpl
        [example_impl 1 False False False, example_impl 1 False True False,
         example_impl 2 False False False, example_impl 1 False False True] example_caller) =
   (None, (fold add_hookimpl
        [example_impl 1 False False False, example_impl 1 False True False,
         example_impl 2 False False False, example_impl 1 False False True] example_caller)
      \<lparr>nonwrappers := [example_impl 1 False False False, example_impl 2 False False False,
                       example_impl 1 False True False]\<rparr>) \<and>
   filter (owned_by (Some 1))
     [example_impl 1 False False False, example_impl 2 False False False,
      example_impl 1 False True False] =
   tl (filter (owned_by (Some 1))
     [example_impl 1 False False True, example_impl 1 False False False,
      example_impl 2 False False False, example_impl 1 False True False]) \<and>
   snd (remove_plugin (Some 5) example_caller) = example_caller"
  using remove_plugin_one_entry [of "Some 1"
      "fold add_hookimpl
        [example_impl 1 False False False, example_impl 1 False True False,
         example_impl 2 False False False, example_impl 1 False False True] example_caller"
      "(fold add_hookimpl
        [example_impl 1 False False False, example_impl 1 False True False,
         example_impl 2 False False False, example_impl 1 False False True] example_caller)
      \<lparr>nonwrappers := [example_impl 1 False False False, example_impl 2 False False False,
                       example_impl 1 False True False]\<rparr>" ValueError]
    remove_plugin_one_entry [of "Some 5" example_caller example_caller ValueError]
  by (simp add: example_defs add_hookimpl_def insert_at_def remove_plugin_def owned_by_def)

section \<open>Temporary implementations\<close>

lemma set_insert_at: "set (insert_at k x xs) = insert x (set xs)"
proof -
  have "set (take k xs) \<union> set (drop k xs) = set xs"
    by (metis append_take_drop_id set_append)
  then show ?thesis by (auto simp: insert_at_def)
qed

lemma add_hookimpl_nonwrapper_set:
  "\<not> hookwrapper h \<Longrightarrow> set (nonwrappers (add_hookimpl h c)) = insert h (set (nonwrappers c))"
  by (simp add: add_hookimpl_nonwrappers set_insert_at)

lemma fold_add_nonwrappers:
  "\<forall>h\<in>set hs. \<not> hookwrapper h \<Longrightarrow>
   wrappers (fold add_hookimpl hs c) = wrappers c \<and>
   set (nonwrappers (fold add_hookimpl hs c)) = set hs \<union> set (nonwrappers c)"
proof (induction hs arbitrary: c)
  case Nil
  then show ?case by simp
next
  case (Cons h hs)
  have h: "\<not> hookwrapper h" using Cons.prems by simp
  have "wrappers (add_hookimpl h c) = wrappers c"
    using h by (simp add: add_hookimpl_wrappers)
  moreover have "set (nonwrappers (add_hookimpl h c)) = insert h (set (nonwrappers c))"
    using h by (rule add_hookimpl_nonwrapper_set)
  ultimately show ?case using Cons.IH [of "add_hookimpl h c"] Cons.prems by auto
qed

lemma HookImpl_temp:
  assumes "introspectable m"
  shows "\<exists>h. HookImpl None ''<temp>'' m temp_opts = Inr h \<and> func h = m \<and> plugin h = None \<and>
           \<not> hookwrapper h \<and> \<not> tryfirst h \<and> \<not> trylast h"
  using assms
  by (auto simp: introspectable_def HookImpl_def temp_opts_def split: sum.splits option.splits)

lemma add_extra_introspectable:
  "list_all introspectable methods \<Longrightarrow>
   \<exists>hs. add_extra methods c = (None, fold add_hookimpl hs c) \<and> map func hs = methods \<and>
     (\<forall>h\<in>set hs. plugin h = None \<and> \<not> hookwrapper h \<and> \<not> tryfirst h \<and> \<not> trylast h)"
proof (induction methods arbitrary: c)
  case Nil
  have "add_extra [] c = (None, fold add_hookimpl [] c) \<and> map func [] = []" by simp
  then show ?case by fastforce
next
  case (Cons m methods)
  from Cons.prems have "introspectable m" by simp
  from HookImpl_temp [OF this] obtain h :: "('a, 'b) hookimpl" where
    h: "HookImpl None ''<temp>'' m temp_opts = Inr h" "func h = m" "plugin h = None"
       "\<not> hookwrapper h" "\<not> tryfirst h" "\<not> trylast h"
    by blast
  from Cons.prems have "list_all introspectable methods" by simp
  from Cons.IH [OF this, of "add_hookimpl h c"] obtain hs where
    hs: "add_extra methods (add_hookimpl h c) = (None, fold add_hookimpl hs (add_hookimpl h c))"
        "map func hs = methods"
        "\<forall>h\<in>set hs. plugin h = None \<and> \<not> hookwrapper h \<and> \<not> tryfirst h \<and> \<not> trylast h"
    by blast
  have "add_extra (m # methods) c = (None, fold add_hookimpl (h # hs) c) \<and>
        map func (h # hs) = m # methods \<and>
        (\<forall>h\<in>set (h # hs). plugin h = None \<and> \<not> hookwrapper h \<and> \<not> tryfirst h \<and> \<not> trylast h)"
    using h hs by simp
  then show ?case by (rule exI [of _ "h # hs"])
qed

text \<open>
  When every extra callable can be made into an implementation, \<^verbatim>\<open>call_extra\<close> reaches
  \<^verbatim>\<open>self(**kwargs)\<close>: each callable is in the list the executor gets, as a non-wrapper that
  is neither tryfirst nor trylast, and the two lists afterwards are the ones before, whether
  the call returned or raised.
\<close>

lemma call_extra_restores:
  assumes "list_all introspectable methods"
    and "call_extra hookexec methods kwargs c = (r, c', es)"
  shows "nonwrappers c' = nonwrappers c \<and> wrappers c' = wrappers c \<and>
    (\<exists>hs c1. c1 = fold add_hookimpl hs c \<and> map func hs = methods \<and>
       list_all (\<lambda>h. plugin h = None \<and> \<not> hookwrapper h \<and> \<not> tryfirst h \<and> \<not> trylast h) hs \<and>
       set hs \<subseteq> set (nonwrappers c1) \<and> wrappers c1 = wrappers c \<and>
       (r, es) =
         (if is_historic c then (Inl AssertionError, [])
          else (hookexec c1 (nonwrappers c1 @ wrappers c1) (Some kwargs),
                [Exec (nonwrappers c1 @ wrappers c1) (Some kwargs)])))"
proof -
  from add_extra_introspectable [OF assms(1), of c] obtain hs where
    hs: "add_extra methods c = (None, fold add_hookimpl hs c)" "map func hs = methods"
        "\<forall>h\<in>set hs. plugin h = None \<and> \<not> hookwrapper h \<and> \<not> tryfirst h \<and> \<not> trylast h"
    by blast
  let ?c1 = "fold add_hookimpl hs c"
  have nw: "\<forall>h\<in>set hs. \<not> hookwrapper h" using hs(3) by simp
  have lists: "wrappers ?c1 = wrappers c" "set hs \<subseteq> set (nonwrappers ?c1)"
    using fold_add_nonwrappers [OF nw, of c] by auto
  have hist: "is_historic ?c1 = is_historic c"
    by (simp add: is_historic_def fold_add_hookimpl_call_history)
  have call: "call_extra hookexec methods kwargs c =
      (fst (hookcaller_call hookexec [] kwargs ?c1),
       (fst (snd (hookcaller_call hookexec [] kwargs ?c1)))
         \<lparr>nonwrappers := nonwrappers c, wrappers := wrappers c\<rparr>,
       snd (snd (hookcaller_call hookexec [] kwargs ?c1)))"
    using hs(1) by (simp add: call_extra_def Let_def split: prod.splits)
  have c': "c' = ?c1\<lparr>nonwrappers := nonwrappers c, wrappers := wrappers c\<rparr>"
    using call assms(2) by (simp add: hookcaller_call_state)
  have res: "(r, es) =
         (if is_historic c then (Inl AssertionError, [])
          else (hookexec ?c1 (nonwrappers ?c1 @ wrappers ?c1) (Some kwargs),
                [Exec (nonwrappers ?c1 @ wrappers ?c1) (Some kwargs)]))"
    using call assms(2) hist by (auto simp: hookcaller_call_def)
  have "list_all (\<lambda>h. plugin h = None \<and> \<not> hookwrapper h \<and> \<not> tryfirst h \<and> \<not> trylast h) hs"
    using hs(3) by (simp add: list_all_iff)
  with c' res lists hs(2) show ?thesis by auto
qed

text \<open>
  C3, where the code leaves the chain changed. Two extra callables: a function of one
  parameter \<open>x\<close>, and a module-level function whose parameter is named \<open>self\<close>, at which
  \<^verbatim>\<open>varnames\<close> fails its assertion. The temporary implementation of the first has been
  added when \<^verbatim>\<open>HookImpl(...)\<close> raises for the second; the loop stands before the \<^verbatim>\<open>try\<close>,
  so the exception leaves \<^verbatim>\<open>call_extra\<close> without the saved lists being put back, and the list
  of non-wrappers, empty before the call, holds the temporary implementation after it.
\<close>

theorem call_extra_leaves_temporary:
  "nonwrappers example_caller = [] \<and>
   call_extra example_exec [example_func 1, self_func 2] [(''x'', 0)] example_caller =
     (Inl AssertionError,
      example_caller\<lparr>nonwrappers :=
        [\<lparr>func = example_func 1, argnames = [''x''], kwargnames = [], plugin = None,
          plugin_name = ''<temp>'', hookwrapper = False, optionalhook = None,
          tryfirst = False, trylast = False\<rparr>]\<rparr>,
      [])"
  by (simp add: example_defs self_func_def call_extra_def HookImpl_def varnames_def
      inspect_routine_def temp_opts_def add_hookimpl_def insert_at_def)

lemma call_extra_restores_example:
  "list_all introspectable [example_func 8, example_func 9] \<and>
   call_extra failing_exec [example_func 8, example_func 9] [(''x'', 0)]
     (add_hookimpl (example_impl 1 False True False) example_caller) =
     (Inl (Raised ''RuntimeError''), add_hookimpl (example_impl 1 False True False) example_caller,
      [Exec [\<lparr>func = example_func 8, argnames = [''x''], kwargnames = [], plugin = None,
          plugin_name = ''<temp>'', hookwrapper = False, optionalhook = None,
          tryfirst = False, trylast = False\<rparr>,
         \<lparr>func = example_func 9, argnames = [''x''], kwargnames = [], plugin = None,
          plugin_name = ''<temp>'', hookwrapper = False, optionalhook = None,
          tryfirst = False, trylast = False\<rparr>,
         example_impl 1 False True False] (Some [(''x'', 0)])])"
  by (simp add: example_defs failing_exec_def call_extra_def HookImpl_def varnames_def
      inspect_routine_def temp_opts_def add_hookimpl_def insert_at_def introspectable_def
      hookcaller_call_def is_historic_def)

section \<open>Historic calls\<close>

text \<open>
  C8. On a historic caller \<^verbatim>\<open>call_historic\<close> appends the pair of \<^verbatim>\<open>kwargs or {}\<close> and the
  callback to the history before it calls the executor: the executor is called for the
  caller with the pair recorded, and whatever the outcome, also when the executor raises,
  the caller afterwards has the history with the pair at its end.
\<close>

theorem call_historic_records:
  assumes "call_history c = Some h"
  shows "fst (snd (call_historic hookexec run_proc proc kwargs c)) =
           c\<lparr>call_history := Some (h @ [((case kwargs of None \<Rightarrow> [] | Some kw \<Rightarrow> kw), proc)])\<rparr> \<and>
         (\<forall>e. hookexec
                 (c\<lparr>call_history :=
                      Some (h @ [((case kwargs of None \<Rightarrow> [] | Some kw \<Rightarrow> kw), proc)])\<rparr>)
                 (nonwrappers c @ wrappers c) kwargs = Inl e \<longrightarrow>
               call_historic hookexec run_proc proc kwargs c =
                 (Inl e,
                  c\<lparr>call_history :=
                      Some (h @ [((case kwargs of None \<Rightarrow> [] | Some kw \<Rightarrow> kw), proc)])\<rparr>,
                  [Exec (nonwrappers c @ wrappers c) kwargs]))"
  using assms
  by (simp add: call_historic_def Let_def split: sum.splits option.splits prod.splits)

theorem call_historic_records_witness:
  "call_history historic_caller = Some [([(''x'', 1)], Some 7)] \<and>
   call_historic failing_exec example_proc (Some 8) (Some [(''x'', 2)]) historic_caller =
     (Inl (Raised ''RuntimeError''),
      historic_caller\<lparr>call_history := Some [([(''x'', 1)], Some 7), ([(''x'', 2)], Some 8)]\<rparr>,
      [Exec [] (Some [(''x'', 2)])]) \<and>
   call_history (fst (snd (call_historic doubling_exec example_proc None None historic_caller))) =
     Some [([(''x'', 1)], Some 7), ([], None)]"
  using call_historic_records [of historic_caller "[([(''x'', 1)], Some 7)]" failing_exec
      example_proc "Some 8" "Some [(''x'', 2)]"]
    call_historic_records [of historic_caller "[([(''x'', 1)], Some 7)]" doubling_exec
      example_proc None None]
  by (simp add: historic_caller_history historic_caller_lists failing_exec_def)

lemma first_result_events_Cons:
  "first_result_events hookexec method c ((kwargs, proc) # hist) =
     (Exec [method] (Some kwargs) #
      (case (hookexec c [method] (Some kwargs), proc) of
         (Inr (Some (x # xs)), Some p) \<Rightarrow> [Proc p x]
       | _ \<Rightarrow> [])) @ first_result_events hookexec method c hist"
  by (simp add: first_result_events_def)


lemma first_result_events_single:
  "list_all (at_most_one_result hookexec method c) hist \<Longrightarrow>
   first_result_events hookexec method c hist = replay_events hookexec method c hist"
proof (induction hist)
  case Nil
  then show ?case by (simp add: first_result_events_def replay_events_def)
next
  case (Cons entry hist)
  obtain kwargs proc where entry: "entry = (kwargs, proc)" by (cases entry)
  have one: "at_most_one_result hookexec method c (kwargs, proc)"
    using Cons.prems entry by simp
  have cons: "replay_events hookexec method c ((kwargs, proc) # hist) =
      (Exec [method] (Some kwargs) #
       (case (hookexec c [method] (Some kwargs), proc) of
          (Inr (Some xs), Some p) \<Rightarrow> map (Proc p) xs
        | _ \<Rightarrow> [])) @ replay_events hookexec method c hist"
    by (simp add: replay_events_def)
  have IH: "first_result_events hookexec method c hist = replay_events hookexec method c hist"
    using Cons by simp
  show ?case
    unfolding entry first_result_events_Cons cons IH using one
    by (auto simp: at_most_one_result_def split: sum.splits option.splits list.splits)
qed

text \<open>
  The loop of \<^verbatim>\<open>call_historic\<close> calls the callback for each of two results of one call.
\<close>

lemma call_historic_each_result:
  "snd (snd (call_historic two_results_exec example_proc (Some 9) (Some [(''x'', 3)])
     (add_hookimpl (example_impl 1 False False False) historic_caller))) =
   [Exec [example_impl 1 False False False] (Some [(''x'', 3)]), Proc 9 6, Proc 9 7]"
proof -
  have h: "call_history (add_hookimpl (example_impl 1 False False False) historic_caller) =
      Some [([(''x'', 1)], Some 7)]"
    by (simp add: add_hookimpl_call_history historic_caller_history)
  have l: "nonwrappers (add_hookimpl (example_impl 1 False False False) historic_caller) =
        [example_impl 1 False False False] \<and>
      wrappers (add_hookimpl (example_impl 1 False False False) historic_caller) = []"
    using historic_caller_lists
    by (simp add: add_hookimpl_nonwrappers add_hookimpl_wrappers insert_at_def example_impl_def)
  show ?thesis
    using h l
    by (simp add: call_historic_def Let_def two_results_exec_def example_proc_def)
qed




section \<open>Specifications\<close>

text \<open>
  C6. Marking a function as a specification with \<^verbatim>\<open>historic\<close> and \<^verbatim>\<open>firstresult\<close> both
  true raises \<^verbatim>\<open>ValueError\<close>, directly or when the decorator the marker returned is applied;
  with any other combination of the two flags the function is marked with the options.
\<close>

theorem hookspec_historic_firstresult:
  "HookspecMarker_call pn (Some f) True True w = Inl ValueError \<and>
   (\<exists>d. HookspecMarker_call pn None True True w = Inr (Decorator d) \<and> d f = Inl ValueError) \<and>
   (\<not> (hi \<and> fr) \<longrightarrow>
      HookspecMarker_call pn (Some f) fr hi w =
        Inr (Marked (f(pn @ ''_spec'' \<mapsto>
          \<lparr>firstresult = Some fr, historic = Some hi, opt_warn_on_impl = Some w\<rparr>))) \<and>
      (\<exists>d. HookspecMarker_call pn None fr hi w = Inr (Decorator d) \<and>
         d f = Inr (f(pn @ ''_spec'' \<mapsto>
           \<lparr>firstresult = Some fr, historic = Some hi, opt_warn_on_impl = Some w\<rparr>))))"
  by (auto simp: HookspecMarker_call_def setattr_hookspec_opts_def)

theorem hookspec_historic_firstresult_witness:
  "HookspecMarker_call ''pytest'' (Some Map.empty) True True (None :: nat option) = Inl ValueError \<and>
   HookspecMarker_call ''pytest'' (Some Map.empty) True False (None :: nat option) =
     Inr (Marked [''pytest_spec'' \<mapsto>
       \<lparr>firstresult = Some True, historic = Some False, opt_warn_on_impl = Some None\<rparr>]) \<and>
   HookspecMarker_call ''pytest'' (Some Map.empty) False True (None :: nat option) =
     Inr (Marked [''pytest_spec'' \<mapsto>
       \<lparr>firstresult = Some False, historic = Some True, opt_warn_on_impl = Some None\<rparr>]) \<and>
   HookspecMarker_call ''pytest'' (Some Map.empty) False False (None :: nat option) =
     Inr (Marked [''pytest_spec'' \<mapsto>
       \<lparr>firstresult = Some False, historic = Some False, opt_warn_on_impl = Some None\<rparr>])"
  using hookspec_historic_firstresult [of "''pytest''" Map.empty "None :: nat option" False True]
    hookspec_historic_firstresult [of "''pytest''" Map.empty "None :: nat option" True False]
    hookspec_historic_firstresult [of "''pytest''" Map.empty "None :: nat option" False False]
  by simp

text \<open>
  C7. \<^verbatim>\<open>set_specification\<close> on a caller that has a specification fails its assertion and
  changes nothing. On a caller that has none, with a specification that defines the hook's
  function and an options dictionary, it returns: the caller is bound, its argument names
  are those of the function after \<^verbatim>\<open>__multicall__\<close>, a historic specification gives it an
  empty call history (any other leaves the history absent or as it was), and a second
  \<^verbatim>\<open>set_specification\<close> fails.
\<close>

theorem set_specification_once:
  "(has_spec c \<longrightarrow> set_specification m so c = (Some AssertionError, c)) \<and>
   (\<not> has_spec c \<and> map_of m (name c) = Some f \<and> varnames f = Inr (Some (a, k)) \<longrightarrow>
      (\<exists>c'. set_specification m (Some opts) c = (None, c') \<and> has_spec c' \<and>
         specmodule_or_class c' = Some m \<and>
         spec_argnames c' = Some (''__multicall__'' # a) \<and> spec_kwargnames c' = Some k \<and>
         call_history c' = (if historic opts = Some True then Some [] else call_history c) \<and>
         set_specification m2 so2 c' = (Some AssertionError, c')))"
  by (simp add: set_specification_def has_spec_def Let_def)

theorem set_specification_once_witness:
  "\<not> has_spec example_caller \<and>
   set_specification [(''myhook'', example_func 0)]
     (Some \<lparr>firstresult = Some False, historic = Some True, opt_warn_on_impl = Some None\<rparr>)
     example_caller =
   (None, example_caller
      \<lparr>specmodule_or_class := Some [(''myhook'', example_func 0)],
       spec_argnames := Some [''__multicall__'', ''x''], spec_kwargnames := Some [],
       spec_opts := \<lparr>firstresult = Some False, historic = Some True, opt_warn_on_impl = Some None\<rparr>,
       call_history := Some []\<rparr>) \<and>
   set_specification [(''myhook'', example_func 1)] None
     (example_caller
      \<lparr>specmodule_or_class := Some [(''myhook'', example_func 0)],
       spec_argnames := Some [''__multicall__'', ''x''], spec_kwargnames := Some [],
       spec_opts := \<lparr>firstresult = Some False, historic = Some True, opt_warn_on_impl = Some None\<rparr>,
       call_history := Some []\<rparr>) =
   (Some AssertionError, example_caller
      \<lparr>specmodule_or_class := Some [(''myhook'', example_func 0)],
       spec_argnames := Some [''__multicall__'', ''x''], spec_kwargnames := Some [],
       spec_opts := \<lparr>firstresult = Some False, historic = Some True, opt_warn_on_impl = Some None\<rparr>,
       call_history := Some []\<rparr>)"
  using set_specification_once [of example_caller "[(''myhook'', example_func 0)]" None
      "example_func 0" "[''x'']" "[]"
      "\<lparr>firstresult = Some False, historic = Some True, opt_warn_on_impl = Some None\<rparr>"
      "[(''myhook'', example_func 1)]" None]
    set_specification_once [of "example_caller
      \<lparr>specmodule_or_class := Some [(''myhook'', example_func 0)],
       spec_argnames := Some [''__multicall__'', ''x''], spec_kwargnames := Some [],
       spec_opts := \<lparr>firstresult = Some False, historic = Some True, opt_warn_on_impl = Some None\<rparr>,
       call_history := Some []\<rparr>" "[(''myhook'', example_func 1)]" None
       "example_func 0" "[''x'']" "[]"
       "\<lparr>firstresult = Some False, historic = Some True, opt_warn_on_impl = Some None\<rparr>"
       "[(''myhook'', example_func 1)]" None]
  by (simp add: example_defs has_spec_def set_specification_def varnames_def inspect_routine_def
      update_opts_def empty_opts_def)

end
